theory Spec2Isabelle
  imports Main "HOL-Library.Word"
begin

section \<open>The fixed-size array \<open>sigcpp::array<T, N>\<close> of \<open>include/array.h\<close>\<close>

subsection \<open>Objects, pointers and the store\<close>

text \<open>
  \<open>size_type\<close> is \<open>size_t\<close>, an unsigned 64-bit integer: comparison is unsigned and
  \<open>N - 1\<close> wraps around at \<open>N = 0\<close>.
\<close>

type_synonym size_type = "64 word"

text \<open>
  An object of type \<open>array<T, N>\<close> has one member, \<open>value_type values[N]\<close>. An object is
  named by an identity; the store gives the contents of the \<open>values\<close> member of every
  object. A pointer is null or points at an offset inside the \<open>values\<close> of one object
  (the offset \<open>N\<close> is the position past the last element). A reference is a pointer to
  the element it is bound to.
\<close>

type_synonym obj = nat

datatype ptr = nullptr | Ptr obj int

type_synonym 'a store = "obj \<Rightarrow> 'a list"

text \<open>The object \<open>this\<close> is an \<open>array<T, N>\<close>: its member \<open>values\<close> has \<open>N\<close> elements.\<close>

definition is_array :: "size_type \<Rightarrow> obj \<Rightarrow> 'a store \<Rightarrow> bool" where
  "is_array N this s \<longleftrightarrow> length (s this) = unat N"

text \<open>
  Reading and writing through a pointer or reference (\<open>*p\<close> and \<open>*p = v\<close>). Outside the
  elements of the object the access has no defined behaviour: the result is \<open>None\<close>.
\<close>

fun deref_read :: "'a store \<Rightarrow> ptr \<Rightarrow> 'a option" where
  "deref_read s nullptr = None"
| "deref_read s (Ptr b i) =
     (if 0 \<le> i \<and> i < int (length (s b)) then Some (s b ! nat i) else None)"

fun deref_write :: "'a store \<Rightarrow> ptr \<Rightarrow> 'a \<Rightarrow> 'a store option" where
  "deref_write s nullptr v = None"
| "deref_write s (Ptr b i) v =
     (if 0 \<le> i \<and> i < int (length (s b)) then Some (s(b := (s b)[nat i := v])) else None)"

text \<open>Pointer arithmetic \<open>p + k\<close>; on the null pointer only \<open>p + 0\<close> is defined.\<close>

fun ptr_add :: "ptr \<Rightarrow> int \<Rightarrow> ptr" where
  "ptr_add nullptr k = nullptr"
| "ptr_add (Ptr b i) k = Ptr b (i + k)"

text \<open>The member \<open>values\<close> used as a pointer: the address of its first element.\<close>

definition values_ptr :: "obj \<Rightarrow> ptr" where
  "values_ptr this = Ptr this 0"

subsection \<open>Results of a call\<close>

text \<open>
  A throw expression throws the exception object itself, \<open>throw E(...)\<close>, or, written
  \<open>throw new E(...)\<close>, a pointer to a newly allocated exception object. The two are
  values of different types: a handler for \<open>E\<close> or for \<open>std::exception\<close> catches the
  first and not the second. \<open>at\<close> fails with
  \<open>throw new std::out_of_range("array index out of range")\<close>.
\<close>

datatype exception = out_of_range string

datatype thrown = by_value exception | pointer_to exception

text \<open>
  A call returns a value, throws, or has no defined behaviour. A const member function
  cannot write to the object and is a function of its arguments; a member function that is
  not const receives the store and returns it with its result.
\<close>

datatype 'r result = Returns 'r | Throws thrown | Undefined

text \<open>
  The built-in subscript \<open>values[pos]\<close> on the member \<open>T values[N]\<close>: a reference to the
  element at \<open>pos\<close>, and no defined behaviour when there is no such element.
\<close>

definition values_at :: "size_type \<Rightarrow> obj \<Rightarrow> size_type \<Rightarrow> ptr result" where
  "values_at N this pos = (if pos < N then Returns (Ptr this (uint pos)) else Undefined)"

text \<open>Calling a member function from another one, in a member function that is not const.\<close>

fun then_call ::
  "'r result \<times> 'a store \<Rightarrow> ('r \<Rightarrow> 'a store \<Rightarrow> 'q result \<times> 'a store) \<Rightarrow> 'q result \<times> 'a store"
where
  "then_call (Returns x, s) k = k x s"
| "then_call (Throws t, s) k = (Throws t, s)"
| "then_call (Undefined, s) k = (Undefined, s)"

subsection \<open>Capacity\<close>

text \<open>
  \<open>empty() { return N == 0; }\<close>, \<open>size() { return N; }\<close>, \<open>max_size() { return N; }\<close>:
  const, and reading nothing but the template parameter.
\<close>

definition empty_array :: "size_type \<Rightarrow> bool" where
  "empty_array N \<longleftrightarrow> N = 0"

definition size_array :: "size_type \<Rightarrow> size_type" where
  "size_array N = N"

definition max_size :: "size_type \<Rightarrow> size_type" where
  "max_size N = N"

subsection \<open>Element access\<close>

text \<open>
  \<open>operator[](pos) { return values[pos]; }\<close> in both overloads; \<open>at(pos)\<close> is
  \<open>if (pos < N) return values[pos]; else throw new std::out_of_range(...)\<close> in both
  overloads; \<open>front() { return values[0]; }\<close>; the mutable \<open>back()\<close> is
  \<open>return empty() ? front() : values[N-1];\<close> and the const one is
  \<open>if constexpr (N == 0) return front(); else return values[N - 1];\<close>; \<open>data()\<close> is
  \<open>if constexpr (N == 0) return nullptr; else return values;\<close>.
\<close>

definition operator_subscript_mut ::
  "size_type \<Rightarrow> obj \<Rightarrow> size_type \<Rightarrow> 'a store \<Rightarrow> ptr result \<times> 'a store" where
  "operator_subscript_mut N this pos s = (values_at N this pos, s)"

definition operator_subscript_const :: "size_type \<Rightarrow> obj \<Rightarrow> size_type \<Rightarrow> ptr result" where
  "operator_subscript_const N this pos = values_at N this pos"

definition at_mut ::
  "size_type \<Rightarrow> obj \<Rightarrow> size_type \<Rightarrow> 'a store \<Rightarrow> ptr result \<times> 'a store" where
  "at_mut N this pos s =
     (if pos < N then (values_at N this pos, s)
      else (Throws (pointer_to (out_of_range ''array index out of range'')), s))"

definition at_const :: "size_type \<Rightarrow> obj \<Rightarrow> size_type \<Rightarrow> ptr result" where
  "at_const N this pos =
     (if pos < N then values_at N this pos
      else Throws (pointer_to (out_of_range ''array index out of range'')))"

definition front_mut :: "size_type \<Rightarrow> obj \<Rightarrow> 'a store \<Rightarrow> ptr result \<times> 'a store" where
  "front_mut N this s = (values_at N this 0, s)"

definition front_const :: "size_type \<Rightarrow> obj \<Rightarrow> ptr result" where
  "front_const N this = values_at N this 0"

definition back_mut :: "size_type \<Rightarrow> obj \<Rightarrow> 'a store \<Rightarrow> ptr result \<times> 'a store" where
  "back_mut N this s =
     (if empty_array N then front_mut N this s else (values_at N this (N - 1), s))"

definition back_const :: "size_type \<Rightarrow> obj \<Rightarrow> ptr result" where
  "back_const N this = (if N = 0 then front_const N this else values_at N this (N - 1))"

definition data_mut :: "size_type \<Rightarrow> obj \<Rightarrow> 'a store \<Rightarrow> ptr result \<times> 'a store" where
  "data_mut N this s = (if N = 0 then (Returns nullptr, s) else (Returns (values_ptr this), s))"

definition data_const :: "size_type \<Rightarrow> obj \<Rightarrow> ptr" where
  "data_const N this = (if N = 0 then nullptr else values_ptr this)"

subsection \<open>Iterators\<close>

text \<open>
  Modelled from the spec: the class template \<open>array_iterator\<close> of \<open>array_iterator.h\<close>,
  which \<open>array.h\<close> includes and which is not among the sources. The spec describes it as a
  cursor wrapping a raw position into the array's storage, moved forward and backward by
  fixed offsets, compared for equality, and dereferenced to the element it points at,
  without any bounds check; the iterator made with no argument is the canonical empty
  position, equal to itself. \<open>iterator\<close> and \<open>const_iterator\<close> are both this type.
\<close>

datatype array_iterator = array_iterator ptr

text \<open>
  Modelled from the spec: the default constructor \<open>array_iterator()\<close>, the canonical empty
  position; it wraps the null pointer.
\<close>

definition array_iterator_default :: array_iterator where
  "array_iterator_default = array_iterator nullptr"

text \<open>
  Modelled from the spec: \<open>*it\<close> reads the element at the wrapped position, \<open>++it\<close> and
  \<open>--it\<close> move the wrapped position by one element.
\<close>

fun iterator_deref :: "'a store \<Rightarrow> array_iterator \<Rightarrow> 'a option" where
  "iterator_deref s (array_iterator p) = deref_read s p"

fun iterator_inc :: "array_iterator \<Rightarrow> array_iterator" where
  "iterator_inc (array_iterator p) = array_iterator (ptr_add p 1)"

fun iterator_dec :: "array_iterator \<Rightarrow> array_iterator" where
  "iterator_dec (array_iterator p) = array_iterator (ptr_add p (- 1))"

text \<open>
  \<open>std::reverse_iterator\<close> over \<open>array_iterator\<close>: it holds a forward iterator
  \<open>current\<close>; \<open>*r\<close> is \<open>*(current - 1)\<close>, \<open>++r\<close> is \<open>--current\<close>, and two reverse iterators
  are equal when their forward iterators are.
\<close>

datatype reverse_iterator = reverse_iterator array_iterator

fun reverse_deref :: "'a store \<Rightarrow> reverse_iterator \<Rightarrow> 'a option" where
  "reverse_deref s (reverse_iterator current) = iterator_deref s (iterator_dec current)"

fun reverse_inc :: "reverse_iterator \<Rightarrow> reverse_iterator" where
  "reverse_inc (reverse_iterator current) = reverse_iterator (iterator_dec current)"

text \<open>
  The traversal of a range, \<open>for (it = first; it != stop; ++it) visit(*it)\<close>, for either
  kind of iterator; the result is the list of the elements visited, in the order of the
  visits. Nothing bounds the loop: the result is \<open>None\<close> when it does not end or when it
  dereferences a position that holds no element.
\<close>

partial_function (option) traverse ::
  "('it \<Rightarrow> 'v option) \<Rightarrow> ('it \<Rightarrow> 'it) \<Rightarrow> 'it \<Rightarrow> 'it \<Rightarrow> 'v list option" where
  "traverse deref inc it stop =
     (if it = stop then Some []
      else Option.bind (deref it)
             (\<lambda>v. Option.bind (traverse deref inc (inc it) stop) (\<lambda>vs. Some (v # vs))))"

declare traverse.simps [code]

text \<open>
  \<open>begin()\<close> is \<open>if constexpr (N == 0) return iterator(); else return iterator(values);\<close>
  and \<open>end()\<close> is the same with \<open>values + N\<close>, in both overloads; \<open>rbegin()\<close> is
  \<open>reverse_iterator(end())\<close> and \<open>rend()\<close> is \<open>reverse_iterator(begin())\<close>; \<open>cbegin\<close>,
  \<open>cend\<close>, \<open>crbegin\<close> and \<open>crend\<close> call the const \<open>begin\<close>, \<open>end\<close>, \<open>rbegin\<close> and \<open>rend\<close>.
\<close>

definition begin_mut :: "size_type \<Rightarrow> obj \<Rightarrow> 'a store \<Rightarrow> array_iterator result \<times> 'a store" where
  "begin_mut N this s =
     (if N = 0 then (Returns array_iterator_default, s)
      else (Returns (array_iterator (values_ptr this)), s))"

definition begin_const :: "size_type \<Rightarrow> obj \<Rightarrow> array_iterator" where
  "begin_const N this =
     (if N = 0 then array_iterator_default else array_iterator (values_ptr this))"

definition end_mut :: "size_type \<Rightarrow> obj \<Rightarrow> 'a store \<Rightarrow> array_iterator result \<times> 'a store" where
  "end_mut N this s =
     (if N = 0 then (Returns array_iterator_default, s)
      else (Returns (array_iterator (ptr_add (values_ptr this) (uint N))), s))"

definition end_const :: "size_type \<Rightarrow> obj \<Rightarrow> array_iterator" where
  "end_const N this =
     (if N = 0 then array_iterator_default
      else array_iterator (ptr_add (values_ptr this) (uint N)))"

definition rbegin_mut :: "size_type \<Rightarrow> obj \<Rightarrow> 'a store \<Rightarrow> reverse_iterator result \<times> 'a store" where
  "rbegin_mut N this s = then_call (end_mut N this s) (\<lambda>e s'. (Returns (reverse_iterator e), s'))"

definition rbegin_const :: "size_type \<Rightarrow> obj \<Rightarrow> reverse_iterator" where
  "rbegin_const N this = reverse_iterator (end_const N this)"

definition rend_mut :: "size_type \<Rightarrow> obj \<Rightarrow> 'a store \<Rightarrow> reverse_iterator result \<times> 'a store" where
  "rend_mut N this s = then_call (begin_mut N this s) (\<lambda>b s'. (Returns (reverse_iterator b), s'))"

definition rend_const :: "size_type \<Rightarrow> obj \<Rightarrow> reverse_iterator" where
  "rend_const N this = reverse_iterator (begin_const N this)"

definition cbegin :: "size_type \<Rightarrow> obj \<Rightarrow> array_iterator" where
  "cbegin N this = begin_const N this"

definition cend :: "size_type \<Rightarrow> obj \<Rightarrow> array_iterator" where
  "cend N this = end_const N this"

definition crbegin :: "size_type \<Rightarrow> obj \<Rightarrow> reverse_iterator" where
  "crbegin N this = rbegin_const N this"

definition crend :: "size_type \<Rightarrow> obj \<Rightarrow> reverse_iterator" where
  "crend N this = rend_const N this"

subsection \<open>Utility\<close>

text \<open>
  \<open>std::fill_n(first, n, value)\<close>: \<open>for (; n > 0; --n) *first++ = value;\<close>, returning
  \<open>first\<close>.
\<close>

fun fill_n :: "'a store \<Rightarrow> ptr \<Rightarrow> nat \<Rightarrow> 'a \<Rightarrow> ('a store \<times> ptr) option" where
  "fill_n s first 0 v = Some (s, first)"
| "fill_n s first (Suc n) v =
     (case deref_write s first v of
        None \<Rightarrow> None
      | Some s' \<Rightarrow> fill_n s' (ptr_add first 1) n v)"

text \<open>\<open>fill(u) { std::fill_n(values, N, u); }\<close>\<close>

definition fill :: "size_type \<Rightarrow> obj \<Rightarrow> 'a \<Rightarrow> 'a store \<Rightarrow> unit result \<times> 'a store" where
  "fill N this u s =
     (case fill_n s (values_ptr this) (unat N) u of
        None \<Rightarrow> (Undefined, s)
      | Some (s', _) \<Rightarrow> (Returns (), s'))"

text \<open>
  \<open>std::iter_swap(a, b)\<close> is \<open>swap(*a, *b)\<close>: \<open>tmp = *a; *a = *b; *b = tmp\<close>.
  \<open>std::swap_ranges(first1, last1, first2)\<close> is
  \<open>for (; first1 != last1; ++first1, ++first2) iter_swap(first1, first2);\<close>, returning
  \<open>first2\<close>.
\<close>

definition iter_swap :: "'a store \<Rightarrow> ptr \<Rightarrow> ptr \<Rightarrow> 'a store option" where
  "iter_swap s a b =
     Option.bind (deref_read s a) (\<lambda>tmp.
     Option.bind (deref_read s b) (\<lambda>vb.
     Option.bind (deref_write s a vb) (\<lambda>s'. deref_write s' b tmp)))"

partial_function (option) swap_ranges ::
  "'a store \<Rightarrow> ptr \<Rightarrow> ptr \<Rightarrow> ptr \<Rightarrow> ('a store \<times> ptr) option" where
  "swap_ranges s first1 last1 first2 =
     (if first1 = last1 then Some (s, first2)
      else Option.bind (iter_swap s first1 first2)
             (\<lambda>s'. swap_ranges s' (ptr_add first1 1) last1 (ptr_add first2 1)))"

declare swap_ranges.simps [code]

text \<open>\<open>swap(a) { std::swap_ranges(values, values + N, a.values); }\<close>\<close>

definition swap_array :: "size_type \<Rightarrow> obj \<Rightarrow> obj \<Rightarrow> 'a store \<Rightarrow> unit result \<times> 'a store" where
  "swap_array N this a s =
     (case swap_ranges s (values_ptr this) (ptr_add (values_ptr this) (uint N)) (values_ptr a) of
        None \<Rightarrow> (Undefined, s)
      | Some (s', _) \<Rightarrow> (Returns (), s'))"

section \<open>Properties\<close>

subsection \<open>Words as indices\<close>

lemma uint_in_bounds:
  "pos < N \<Longrightarrow> length xs = unat N \<Longrightarrow> 0 \<le> uint pos \<and> uint pos < int (length xs)"
  for pos N :: size_type
  by (simp add: word_less_def)

lemma pred_less: "N \<noteq> 0 \<Longrightarrow> N - 1 < N" for N :: size_type
  unfolding word_less_nat_alt by (rule measure_unat)

subsection \<open>The loops\<close>

lemma traverse_forward:
  "i \<le> length (s b) \<Longrightarrow>
   traverse (iterator_deref s) iterator_inc
     (array_iterator (Ptr b (int i))) (array_iterator (Ptr b (int (length (s b)))))
   = Some (drop i (s b))"
proof (induction "length (s b) - i" arbitrary: i)
  case 0
  then show ?case by (subst traverse.simps) simp
next
  case (Suc k)
  then have lt: "i < length (s b)" and le: "Suc i \<le> length (s b)" and k: "k = length (s b) - Suc i"
    by simp_all
  have step: "int i + 1 = int (Suc i)" by simp
  show ?case
    by (subst traverse.simps) (simp add: lt Suc.hyps(1)[OF k le] step Cons_nth_drop_Suc del: of_nat_Suc)
qed

lemma traverse_reverse:
  "i \<le> length (s b) \<Longrightarrow>
   traverse (reverse_deref s) reverse_inc
     (reverse_iterator (array_iterator (Ptr b (int i)))) (reverse_iterator (array_iterator (Ptr b 0)))
   = Some (rev (take i (s b)))"
proof (induction i)
  case 0
  then show ?case by (subst traverse.simps) simp
next
  case (Suc i)
  then have lt: "i < length (s b)" and le: "i \<le> length (s b)" by simp_all
  have step: "int (Suc i) - 1 = int i" by simp
  show ?case
    by (subst traverse.simps) (simp add: lt Suc.IH[OF le] step take_Suc_conv_app_nth del: of_nat_Suc)
qed

lemma fill_n_replicate:
  "i + n \<le> length (s b) \<Longrightarrow>
   fill_n s (Ptr b (int i)) n v =
     Some (s(b := take i (s b) @ replicate n v @ drop (i + n) (s b)), Ptr b (int (i + n)))"
proof (induction n arbitrary: s i)
  case 0
  then show ?case by simp
next
  case (Suc n)
  let ?s' = "s(b := (s b)[i := v])"
  have lt: "i < length (s b)" using Suc.prems by simp
  have le: "Suc i + n \<le> length (?s' b)" using Suc.prems by simp
  have step: "int i + 1 = int (Suc i)" by simp
  have upd: "take (Suc i) ((s b)[i := v]) = take i (s b) @ [v]"
    using lt by (simp add: take_Suc_conv_app_nth)
  have "fill_n s (Ptr b (int i)) (Suc n) v = fill_n ?s' (Ptr b (int (Suc i))) n v"
    using lt by (simp add: step del: of_nat_Suc)
  also have "\<dots> = Some (?s'(b := take (Suc i) (?s' b) @ replicate n v @ drop (Suc i + n) (?s' b)),
                        Ptr b (int (Suc i + n)))"
    by (rule Suc.IH[of "Suc i" ?s', OF le])
  also have "?s'(b := take (Suc i) (?s' b) @ replicate n v @ drop (Suc i + n) (?s' b))
             = s(b := take i (s b) @ replicate (Suc n) v @ drop (i + Suc n) (s b))"
    by (simp add: upd replicate_app_Cons_same)
  finally show ?case by simp
qed

lemma iter_swap_distinct:
  "a \<noteq> b \<Longrightarrow> i < length (s a) \<Longrightarrow> i < length (s b) \<Longrightarrow>
   iter_swap s (Ptr a (int i)) (Ptr b (int i)) =
     Some (s(a := (s a)[i := s b ! i], b := (s b)[i := s a ! i]))"
  by (simp add: iter_swap_def)

lemma iter_swap_self:
  "i < length (s a) \<Longrightarrow> iter_swap s (Ptr a (int i)) (Ptr a (int i)) = Some s"
  by (simp add: iter_swap_def)

lemma swap_ranges_self:
  "i \<le> n \<Longrightarrow> n \<le> length (s a) \<Longrightarrow>
   swap_ranges s (Ptr a (int i)) (Ptr a (int n)) (Ptr a (int i)) = Some (s, Ptr a (int n))"
proof (induction "n - i" arbitrary: i)
  case 0
  then show ?case by (subst swap_ranges.simps) simp
next
  case (Suc k)
  then have lt: "i < n" and le: "Suc i \<le> n" and k: "k = n - Suc i" by simp_all
  have step: "int i + 1 = int (Suc i)" by simp
  have sw: "iter_swap s (Ptr a (int i)) (Ptr a (int i)) = Some s"
    using lt Suc.prems by (intro iter_swap_self) simp
  show ?case
    using lt by (subst swap_ranges.simps) (simp add: sw step Suc.hyps(1)[OF k le Suc.prems(2)] del: of_nat_Suc)
qed

lemma swap_ranges_distinct:
  "a \<noteq> b \<Longrightarrow> i \<le> n \<Longrightarrow> length (s a) = n \<Longrightarrow> length (s b) = n \<Longrightarrow>
   swap_ranges s (Ptr a (int i)) (Ptr a (int n)) (Ptr b (int i)) =
     Some (s(a := take i (s a) @ drop i (s b), b := take i (s b) @ drop i (s a)), Ptr b (int n))"
proof (induction "n - i" arbitrary: i s)
  case 0
  then show ?case by (subst swap_ranges.simps) simp
next
  case (Suc k)
  let ?s' = "s(a := (s a)[i := s b ! i], b := (s b)[i := s a ! i])"
  from Suc have lt: "i < n" and le: "Suc i \<le> n" and k: "k = n - Suc i" by simp_all
  have la: "length (?s' a) = n" and lb: "length (?s' b) = n"
    using Suc.prems by simp_all
  have step: "int i + 1 = int (Suc i)" by simp
  have sw: "iter_swap s (Ptr a (int i)) (Ptr b (int i)) = Some ?s'"
    using lt Suc.prems by (intro iter_swap_distinct) simp_all
  have "swap_ranges s (Ptr a (int i)) (Ptr a (int n)) (Ptr b (int i))
        = swap_ranges ?s' (Ptr a (int (Suc i))) (Ptr a (int n)) (Ptr b (int (Suc i)))"
    using lt by (subst swap_ranges.simps) (simp add: sw step del: of_nat_Suc)
  also have "\<dots> = Some (?s'(a := take (Suc i) (?s' a) @ drop (Suc i) (?s' b),
                             b := take (Suc i) (?s' b) @ drop (Suc i) (?s' a)), Ptr b (int n))"
    by (rule Suc.hyps(1)[of "Suc i" ?s', OF k Suc.prems(1) le la lb])
  also have "?s'(a := take (Suc i) (?s' a) @ drop (Suc i) (?s' b),
                 b := take (Suc i) (?s' b) @ drop (Suc i) (?s' a))
             = s(a := take i (s a) @ drop i (s b), b := take i (s b) @ drop i (s a))"
    using lt Suc.prems
    by (simp add: take_Suc_conv_app_nth Cons_nth_drop_Suc fun_upd_twist)
  finally show ?case .
qed

subsection \<open>The claims\<close>

text \<open>
  C8. \<open>empty()\<close> is true exactly when \<open>N = 0\<close>; \<open>size()\<close> and \<open>max_size()\<close> are \<open>N\<close>. None of
  the three reads the object, so the contents and the operations done before do not matter.
\<close>

theorem capacity_fixed:
  "(empty_array N \<longleftrightarrow> N = 0) \<and> size_array N = N \<and> max_size N = N"
  by (simp add: empty_array_def size_array_def max_size_def)

text \<open>
  C1. On \<open>array<int, 3> a = {1, 2, 3}\<close> the call \<open>a.at(5)\<close> fails, in both overloads, by
  throwing a pointer to an \<open>out_of_range\<close> object with the message "array index out of
  range". What is thrown is not an \<open>out_of_range\<close> error itself, whatever its message: the
  claim's failure with an OutOfRange error does not happen at this input.
\<close>

theorem at_throws_pointer:
  "at_mut 3 0 5 (\<lambda>_. [1, 2, 3 :: int]) =
     (Throws (pointer_to (out_of_range ''array index out of range'')), \<lambda>_. [1, 2, 3]) \<and>
   at_const 3 0 5 = Throws (pointer_to (out_of_range ''array index out of range'')) \<and>
   (\<forall>msg. fst (at_mut 3 0 5 (\<lambda>_. [1, 2, 3 :: int])) \<noteq> Throws (by_value (out_of_range msg))) \<and>
   (\<forall>msg. at_const 3 0 5 \<noteq> Throws (by_value (out_of_range msg)))"
  by (simp add: at_mut_def at_const_def)

text \<open>
  C9. A call of \<open>at(pos)\<close> with \<open>pos \<ge> N\<close> fails and returns the store as it received it:
  every element of every array is unchanged.
\<close>

theorem at_failure_keeps_state:
  "N \<le> pos \<Longrightarrow>
   fst (at_mut N this pos s) = Throws (pointer_to (out_of_range ''array index out of range'')) \<and>
   snd (at_mut N this pos s) = s"
  by (simp add: at_mut_def not_less[symmetric])

theorem at_failure_keeps_state_witness:
  "(3 :: size_type) \<le> 5 \<and>
   fst (at_mut 3 0 5 (\<lambda>_. [1, 2, 3 :: int])) =
     Throws (pointer_to (out_of_range ''array index out of range'')) \<and>
   snd (at_mut 3 0 5 (\<lambda>_. [1, 2, 3 :: int])) = (\<lambda>_. [1, 2, 3])"
proof -
  have h: "(3 :: size_type) \<le> 5" by simp
  show ?thesis
    using h at_failure_keeps_state[OF h, of 0 "\<lambda>_. [1, 2, 3 :: int]"] by simp
qed

text \<open>
  C2. For a valid position \<open>pos < N\<close>, \<open>at(pos)\<close> and \<open>operator[](pos)\<close> return the same
  reference, which refers to the element at index \<open>pos\<close>; after a write through that
  reference both accessors still return it and reading it gives the value written.
\<close>

theorem at_subscript_same_element:
  assumes "is_array N this s" and "pos < N"
  shows "\<exists>r. r = Ptr this (uint pos) \<and>
           at_mut N this pos s = (Returns r, s) \<and>
           operator_subscript_mut N this pos s = (Returns r, s) \<and>
           at_const N this pos = Returns r \<and>
           operator_subscript_const N this pos = Returns r \<and>
           deref_read s r = Some (s this ! unat pos) \<and>
           (\<exists>s'. deref_write s r v = Some s' \<and>
                 s' = s(this := (s this)[unat pos := v]) \<and>
                 is_array N this s' \<and>
                 at_mut N this pos s' = (Returns r, s') \<and>
                 operator_subscript_mut N this pos s' = (Returns r, s') \<and>
                 deref_read s' r = Some v)"
proof -
  have len: "length (s this) = unat N"
    using assms(1) by (simp add: is_array_def)
  have b: "0 \<le> uint pos" "uint pos < int (length (s this))"
    using uint_in_bounds[OF assms(2) len] by simp_all
  have u: "unat pos < length (s this)"
    using assms(2) len by (simp add: word_less_nat_alt)
  show ?thesis
    using assms(2) b u len
    by (simp add: at_mut_def at_const_def operator_subscript_mut_def
        operator_subscript_const_def values_at_def is_array_def)
qed

theorem at_subscript_same_element_witness:
  "is_array 3 0 (\<lambda>_. [1, 2, 3 :: int]) \<and> (1 :: size_type) < 3 \<and>
   at_mut 3 0 1 (\<lambda>_. [1, 2, 3 :: int]) = operator_subscript_mut 3 0 1 (\<lambda>_. [1, 2, 3]) \<and>
   deref_write (\<lambda>_. [1, 2, 3 :: int]) (Ptr 0 1) 7 = Some ((\<lambda>_. [1, 2, 3])(0 := [1, 7, 3])) \<and>
   deref_read ((\<lambda>_. [1, 2, 3 :: int])(0 := [1, 7, 3])) (Ptr 0 1) = Some 7"
proof -
  have w: "is_array 3 0 (\<lambda>_. [1, 2, 3 :: int])"
    by (simp add: is_array_def)
  have p: "(1 :: size_type) < 3" by simp
  show ?thesis
    using w p at_subscript_same_element[OF w p, of 7] by simp
qed

text \<open>
  C3. On an \<open>array<T, N>\<close> the traversal from \<open>begin()\<close> to \<open>end()\<close> ends and visits the
  \<open>N\<close> elements in index order; the traversal from \<open>rbegin()\<close> to \<open>rend()\<close> ends and
  visits the same elements in the reverse order; the const overloads return the same
  iterators; and \<open>begin()\<close>, called again on the store the first call returned, yields
  the same iterator.
\<close>

theorem traversal_order:
  assumes "is_array N this s"
  shows "\<exists>b e rb re.
           begin_mut N this s = (Returns b, s) \<and> end_mut N this s = (Returns e, s) \<and>
           rbegin_mut N this s = (Returns rb, s) \<and> rend_mut N this s = (Returns re, s) \<and>
           b = begin_const N this \<and> e = end_const N this \<and>
           rb = rbegin_const N this \<and> re = rend_const N this \<and>
           traverse (iterator_deref s) iterator_inc b e = Some (s this) \<and>
           traverse (reverse_deref s) reverse_inc rb re = Some (rev (s this)) \<and>
           length (s this) = unat N \<and>
           begin_mut N this (snd (begin_mut N this s)) = (Returns b, s)"
proof (cases "N = 0")
  case True
  then have "s this = []"
    using assms by (simp add: is_array_def)
  then show ?thesis
    using True
    by (simp add: begin_mut_def end_mut_def rbegin_mut_def rend_mut_def begin_const_def
        end_const_def rbegin_const_def rend_const_def traverse.simps)
next
  case False
  have len: "length (s this) = unat N"
    using assms by (simp add: is_array_def)
  have past: "uint N = int (length (s this))"
    by (simp add: len)
  have fwd: "traverse (iterator_deref s) iterator_inc
               (array_iterator (Ptr this 0)) (array_iterator (Ptr this (uint N))) = Some (s this)"
    using traverse_forward[of 0 s this] by (simp add: past)
  have bwd: "traverse (reverse_deref s) reverse_inc
               (reverse_iterator (array_iterator (Ptr this (uint N))))
               (reverse_iterator (array_iterator (Ptr this 0))) = Some (rev (s this))"
    using traverse_reverse[of "length (s this)" s this] by (simp add: past)
  show ?thesis
    using False fwd bwd len
    by (simp add: begin_mut_def end_mut_def rbegin_mut_def rend_mut_def begin_const_def
        end_const_def rbegin_const_def rend_const_def values_ptr_def)
qed

theorem traversal_order_witness:
  "is_array 3 0 (\<lambda>_. [1, 2, 3 :: int]) \<and>
   traverse (iterator_deref (\<lambda>_. [1, 2, 3 :: int])) iterator_inc
     (begin_const 3 0) (end_const 3 0) = Some [1, 2, 3] \<and>
   traverse (reverse_deref (\<lambda>_. [1, 2, 3 :: int])) reverse_inc
     (rbegin_const 3 0) (rend_const 3 0) = Some [3, 2, 1] \<and>
   begin_mut 3 0 (\<lambda>_. [1, 2, 3 :: int]) = (Returns (array_iterator (Ptr 0 0)), \<lambda>_. [1, 2, 3])"
proof -
  have w: "is_array 3 0 (\<lambda>_. [1, 2, 3 :: int])"
    by (simp add: is_array_def)
  have b: "begin_mut 3 0 (\<lambda>_. [1, 2, 3 :: int]) = (Returns (array_iterator (Ptr 0 0)), \<lambda>_. [1, 2, 3])"
    by (simp add: begin_mut_def values_ptr_def)
  show ?thesis
    using w b traversal_order[OF w] by auto
qed

text \<open>
  C4. On an \<open>array<T, N>\<close>, \<open>fill(u)\<close> returns, and afterwards every element at every index
  below \<open>N\<close> is \<open>u\<close> while the other objects are untouched; for \<open>N = 0\<close> it returns and
  changes nothing.
\<close>

theorem fill_all:
  assumes "is_array N this s"
  shows "\<exists>s'. fill N this u s = (Returns (), s') \<and>
              s' = s(this := replicate (unat N) u) \<and>
              is_array N this s' \<and>
              (\<forall>pos. pos < N \<longrightarrow> deref_read s' (Ptr this (uint pos)) = Some u) \<and>
              (N = 0 \<longrightarrow> s' = s)"
proof -
  have len: "length (s this) = unat N"
    using assms by (simp add: is_array_def)
  have "fill_n s (Ptr this (int 0)) (unat N) u =
          Some (s(this := take 0 (s this) @ replicate (unat N) u @ drop (0 + unat N) (s this)),
                Ptr this (int (0 + unat N)))"
    by (rule fill_n_replicate) (simp add: len)
  then have run: "fill_n s (Ptr this 0) (unat N) u =
                    Some (s(this := replicate (unat N) u), Ptr this (int (unat N)))"
    by (simp add: len)
  have rd: "deref_read (s(this := replicate (unat N) u)) (Ptr this (uint pos)) = Some u"
    if "pos < N" for pos
    using uint_in_bounds[OF that, of "replicate (unat N) u"] that
    by (simp add: word_less_nat_alt)
  have empty: "s(this := replicate (unat N) u) = s" if "N = 0"
    using that len by (simp add: fun_upd_idem)
  show ?thesis
    using rd empty by (simp add: fill_def values_ptr_def run is_array_def)
qed

theorem fill_all_witness:
  "is_array 3 0 (\<lambda>_. [1, 2, 3 :: int]) \<and> (2 :: size_type) < 3 \<and>
   fill 3 0 9 (\<lambda>_. [1, 2, 3 :: int]) = (Returns (), (\<lambda>_. [1, 2, 3])(0 := [9, 9, 9])) \<and>
   deref_read ((\<lambda>_. [1, 2, 3 :: int])(0 := [9, 9, 9])) (Ptr 0 2) = Some 9 \<and>
   is_array 0 0 (\<lambda>_. [] :: int list) \<and>
   fill 0 0 9 (\<lambda>_. [] :: int list) = (Returns (), \<lambda>_. [])"
proof -
  have w: "is_array 3 0 (\<lambda>_. [1, 2, 3 :: int])"
    by (simp add: is_array_def)
  have e: "is_array 0 0 (\<lambda>_. [] :: int list)"
    by (simp add: is_array_def)
  have r: "replicate 3 (9 :: int) = [9, 9, 9]"
    by (simp add: numeral_3_eq_3)
  show ?thesis
    using w e fill_all[OF w, of 9] fill_all[OF e, of 9] by (auto simp: r)
qed

text \<open>
  C5. For two objects of type \<open>array<T, N>\<close>, \<open>this->swap(a)\<close> returns, and afterwards the
  elements of \<open>this\<close> are the elements \<open>a\<close> had before the call and the elements of \<open>a\<close> are
  those \<open>this\<close> had, index by index. The two objects may be the same one.
\<close>

theorem swap_exchanges:
  assumes "is_array N this s" and "is_array N a s"
  shows "\<exists>s'. swap_array N this a s = (Returns (), s') \<and>
              s' = s(this := s a, a := s this) \<and>
              s' this = s a \<and> s' a = s this \<and>
              (\<forall>i. i < unat N \<longrightarrow> s' this ! i = s a ! i \<and> s' a ! i = s this ! i)"
proof -
  have len: "length (s this) = unat N" "length (s a) = unat N"
    using assms by (simp_all add: is_array_def)
  have past: "uint N = int (unat N)"
    by simp
  show ?thesis
  proof (cases "a = this")
    case True
    have "swap_ranges s (Ptr this (int 0)) (Ptr this (int (unat N))) (Ptr this (int 0))
            = Some (s, Ptr this (int (unat N)))"
      by (rule swap_ranges_self) (simp_all add: len)
    then show ?thesis
      using True by (simp add: swap_array_def values_ptr_def)
  next
    case False
    then have ne: "this \<noteq> a" by simp
    have "swap_ranges s (Ptr this (int 0)) (Ptr this (int (unat N))) (Ptr a (int 0))
            = Some (s(this := take 0 (s this) @ drop 0 (s a), a := take 0 (s a) @ drop 0 (s this)),
                    Ptr a (int (unat N)))"
      by (rule swap_ranges_distinct[OF ne]) (simp_all add: len)
    then show ?thesis
      using False by (simp add: swap_array_def values_ptr_def)
  qed
qed

theorem swap_exchanges_witness:
  "is_array 3 0 ((\<lambda>_. [1, 2, 3 :: int])(1 := [4, 5, 6])) \<and>
   is_array 3 1 ((\<lambda>_. [1, 2, 3 :: int])(1 := [4, 5, 6])) \<and>
   (\<exists>s'. swap_array 3 0 1 ((\<lambda>_. [1, 2, 3 :: int])(1 := [4, 5, 6])) = (Returns (), s') \<and>
         s' 0 = [4, 5, 6] \<and> s' 1 = [1, 2, 3] \<and> s' 0 ! 2 = 6 \<and> s' 1 ! 2 = 3)"
proof -
  have w0: "is_array 3 0 ((\<lambda>_. [1, 2, 3 :: int])(1 := [4, 5, 6]))"
    by (simp add: is_array_def)
  have w1: "is_array 3 1 ((\<lambda>_. [1, 2, 3 :: int])(1 := [4, 5, 6]))"
    by (simp add: is_array_def)
  show ?thesis
    using w0 w1 swap_exchanges[OF w0 w1] by auto
qed

text \<open>
  C6. For \<open>N = 0\<close>: \<open>empty()\<close> is true, \<open>size()\<close> is 0, \<open>begin()\<close> equals \<open>end()\<close> in the
  mutable, const and reverse variants (all hold the iterator made with no argument), and
  \<open>data()\<close> is the null pointer.
\<close>

theorem zero_length:
  "empty_array 0 \<and> size_array 0 = 0 \<and>
   begin_mut 0 this s = end_mut 0 this s \<and>
   begin_const 0 this = end_const 0 this \<and>
   cbegin 0 this = cend 0 this \<and>
   rbegin_mut 0 this s = rend_mut 0 this s \<and>
   rbegin_const 0 this = rend_const 0 this \<and>
   crbegin 0 this = crend 0 this \<and>
   begin_mut 0 this s = (Returns array_iterator_default, s) \<and>
   begin_const 0 this = array_iterator_default \<and>
   data_mut 0 this s = (Returns nullptr, s) \<and>
   data_const 0 this = nullptr"
  by (simp add: empty_array_def size_array_def begin_mut_def end_mut_def begin_const_def
      end_const_def cbegin_def cend_def rbegin_mut_def rend_mut_def rbegin_const_def
      rend_const_def crbegin_def crend_def data_mut_def data_const_def)

text \<open>
  C7. On an \<open>array<T, N>\<close> with \<open>N > 0\<close>, \<open>front()\<close> returns a reference to the element at
  index 0, the first one, and \<open>back()\<close> a reference to the element at index \<open>N - 1\<close>, the
  last one.
\<close>

theorem front_back:
  assumes "is_array N this s" and "0 < N"
  shows "front_mut N this s = (Returns (Ptr this 0), s) \<and>
         front_const N this = Returns (Ptr this 0) \<and>
         deref_read s (Ptr this 0) = Some (s this ! 0) \<and>
         s this ! 0 = hd (s this) \<and>
         back_mut N this s = (Returns (Ptr this (uint (N - 1))), s) \<and>
         back_const N this = Returns (Ptr this (uint (N - 1))) \<and>
         deref_read s (Ptr this (uint (N - 1))) = Some (s this ! (unat N - 1)) \<and>
         s this ! (unat N - 1) = last (s this)"
proof -
  have len: "length (s this) = unat N"
    using assms(1) by (simp add: is_array_def)
  have ne: "N \<noteq> 0"
    using assms(2) by (simp add: word_neq_0_conv)
  have pos: "0 < unat N"
    using ne by (simp add: unat_gt_0)
  have nonempty: "s this \<noteq> []"
    using len pos by auto
  have lt: "N - 1 < N"
    by (rule pred_less[OF ne])
  have idx: "unat (N - 1) = unat N - 1"
    by (rule unat_minus_one[OF ne])
  have rd: "deref_read s (Ptr this (uint (N - 1))) = Some (s this ! (unat N - 1))"
    using uint_in_bounds[OF lt len] by (simp add: idx)
  have rd0: "deref_read s (Ptr this 0) = Some (s this ! 0)"
    using nonempty by simp
  have ends: "s this ! 0 = hd (s this)" "s this ! (unat N - 1) = last (s this)"
    using nonempty len by (simp_all add: hd_conv_nth last_conv_nth)
  have acc: "values_at N this 0 = Returns (Ptr this 0)"
            "values_at N this (N - 1) = Returns (Ptr this (uint (N - 1)))"
    using assms(2) lt by (simp_all add: values_at_def)
  show ?thesis
    using ne
    by (simp only: front_mut_def front_const_def back_mut_def back_const_def empty_array_def
        acc rd rd0 ends if_False simp_thms)
qed

theorem front_back_witness:
  "is_array 3 0 (\<lambda>_. [9, 9, 9 :: int]) \<and> (0 :: size_type) < 3 \<and>
   front_mut 3 0 (\<lambda>_. [9, 9, 9 :: int]) = (Returns (Ptr 0 0), \<lambda>_. [9, 9, 9]) \<and>
   deref_read (\<lambda>_. [9, 9, 9 :: int]) (Ptr 0 0) = Some 9 \<and>
   back_mut 3 0 (\<lambda>_. [9, 9, 9 :: int]) = (Returns (Ptr 0 2), \<lambda>_. [9, 9, 9]) \<and>
   deref_read (\<lambda>_. [9, 9, 9 :: int]) (Ptr 0 2) = Some 9"
proof -
  have w: "is_array 3 0 (\<lambda>_. [9, 9, 9 :: int])"
    by (simp add: is_array_def)
  have p: "(0 :: size_type) < 3" by simp
  show ?thesis
    using w p front_back[OF w p] by simp
qed

text \<open>
  C10. For \<open>N > 0\<close> the mutable \<open>back()\<close>, which tests \<open>empty()\<close> when it runs, and the const
  \<open>back()\<close>, which branches on \<open>N == 0\<close> when it is compiled, return the same reference,
  to \<open>values[N - 1]\<close>, and the mutable one leaves the store as it is.
\<close>

theorem back_overloads_agree:
  "0 < N \<Longrightarrow>
   back_mut N this s = (back_const N this, s) \<and>
   back_const N this = Returns (Ptr this (uint (N - 1)))"
proof -
  assume "0 < N"
  then have ne: "N \<noteq> 0" by (simp add: word_neq_0_conv)
  show ?thesis
    using ne pred_less[OF ne]
    by (simp add: back_mut_def back_const_def values_at_def empty_array_def)
qed

theorem back_overloads_agree_witness:
  "(0 :: size_type) < 3 \<and>
   back_mut 3 0 (\<lambda>_. [1, 2, 3 :: int]) = (back_const 3 0, \<lambda>_. [1, 2, 3]) \<and>
   back_const 3 0 = Returns (Ptr 0 2)"
proof -
  have p: "(0 :: size_type) < 3" by simp
  show ?thesis
    using p back_overloads_agree[OF p, of 0 "\<lambda>_. [1, 2, 3 :: int]"] by simp
qed

end
